theory Spec2Isabelle
  imports Main "HOL-Library.Word"
begin

section \<open>Validation helpers of firewall/functions.py\<close>

text \<open>
  The functions of \<^verbatim>\<open>src/firewall/functions.py\<close> that parse ports and port ranges
  and that check addresses, interface names and the zone name length, as HOL functions.
  A Python \<^verbatim>\<open>str\<close> is a \<^typ>\<open>string\<close> (one \<^typ>\<open>char\<close> per code point, code points
  below 256), a Python \<^verbatim>\<open>int\<close> is an \<^typ>\<open>int\<close>, a raised exception is the left
  summand of a sum type.
\<close>

subsection \<open>Python built-ins used by the source\<close>

datatype py_error = TypeError | ValueError

text \<open>\<^verbatim>\<open>str.isspace\<close> on the code points below 256.\<close>

definition is_space :: "char \<Rightarrow> bool" where
  "is_space c \<longleftrightarrow>
     c \<in> set [CHR 0x09, CHR 0x0A, CHR 0x0B, CHR 0x0C, CHR 0x0D, CHR 0x1C, CHR 0x1D,
              CHR 0x1E, CHR 0x1F, CHR 0x20, CHR 0x85, CHR 0xA0]"

text \<open>
  The whitespace that \<^verbatim>\<open>int\<close> skips around a numeral, on the code points below 256: it
  does not skip the separators U+001C to U+001F, which \<^verbatim>\<open>str.isspace\<close> accepts.
\<close>

definition is_int_space :: "char \<Rightarrow> bool" where
  "is_int_space c \<longleftrightarrow>
     c \<in> set [CHR 0x09, CHR 0x0A, CHR 0x0B, CHR 0x0C, CHR 0x0D, CHR 0x20, CHR 0x85, CHR 0xA0]"

text \<open>\<^verbatim>\<open>s.strip()\<close>: leading and trailing whitespace removed.\<close>

definition strip :: "string \<Rightarrow> string" where
  "strip s = rev (dropWhile is_space (rev (dropWhile is_space s)))"

definition is_digit :: "char \<Rightarrow> bool" where
  "is_digit c \<longleftrightarrow> c \<in> set ''0123456789''"

definition digit_val :: "char \<Rightarrow> nat" where
  "digit_val c = of_char c - 48"

text \<open>
  The digits of a decimal literal after its first digit: digits, each optionally preceded
  by a single underscore (Python 3.6 and later); the accumulator is the value read so far.
\<close>

fun parse_digits :: "nat \<Rightarrow> string \<Rightarrow> nat option" where
  "parse_digits acc [] = Some acc"
| "parse_digits acc [c] = (if is_digit c then Some (10 * acc + digit_val c) else None)"
| "parse_digits acc (c # d # ds) =
     (if is_digit c then parse_digits (10 * acc + digit_val c) (d # ds)
      else if c = CHR ''_'' \<and> is_digit d then parse_digits (10 * acc + digit_val d) ds
      else None)"

text \<open>
  The limit of \<^verbatim>\<open>int\<close> on the number of digits of a decimal numeral
  (\<^verbatim>\<open>sys.get_int_max_str_digits()\<close>, 4300 unless configured otherwise): leading zeros
  count, underscores do not.
\<close>

definition int_max_str_digits :: nat where
  "int_max_str_digits = 4300"

definition parse_unsigned :: "string \<Rightarrow> nat option" where
  "parse_unsigned s =
     (case s of [] \<Rightarrow> None
      | c # cs \<Rightarrow>
          if is_digit c then
            (if length (filter is_digit s) > int_max_str_digits then None
             else parse_digits (digit_val c) cs)
          else None)"

text \<open>The string without the whitespace that \<^verbatim>\<open>int\<close> skips at its two ends.\<close>

definition int_strip :: "string \<Rightarrow> string" where
  "int_strip s = rev (dropWhile is_int_space (rev (dropWhile is_int_space s)))"

text \<open>
  \<^verbatim>\<open>int(s)\<close> for a string, base 10: the whitespace at the two ends is skipped, then
  comes an optional sign, then the digits. \<^const>\<open>None\<close> is the \<^verbatim>\<open>ValueError\<close> of the
  conversion, raised for a malformed numeral and for one with too many digits.
\<close>

definition py_int :: "string \<Rightarrow> int option" where
  "py_int s =
     (case int_strip s of [] \<Rightarrow> None
      | c # cs \<Rightarrow>
          if c = CHR ''-'' then map_option (\<lambda>n. - int n) (parse_unsigned cs)
          else if c = CHR ''+'' then map_option int (parse_unsigned cs)
          else map_option int (parse_unsigned (c # cs)))"

text \<open>\<^verbatim>\<open>str(n)\<close> for an integer: its decimal digits, with a minus sign when negative.\<close>

definition digit_char :: "nat \<Rightarrow> char" where
  "digit_char d = ''0123456789'' ! d"

fun str_nat :: "nat \<Rightarrow> string" where
  "str_nat n = (if n < 10 then [digit_char n] else str_nat (n div 10) @ [digit_char (n mod 10)])"

declare str_nat.simps [simp del]

definition str_int :: "int \<Rightarrow> string" where
  "str_int i = (if i < 0 then CHR ''-'' # str_nat (nat (- i)) else str_nat (nat i))"

text \<open>The value of a string of decimal digits, most significant digit first.\<close>

definition dec_val :: "string \<Rightarrow> nat" where
  "dec_val ds = foldl (\<lambda>a c. 10 * a + digit_val c) 0 ds"

text \<open>\<^verbatim>\<open>s.split(sep)\<close> for a one-character separator: never an empty list.\<close>

fun split_on :: "char \<Rightarrow> string \<Rightarrow> string list" where
  "split_on sep [] = [[]]"
| "split_on sep (c # cs) =
     (if c = sep then [] # split_on sep cs
      else (case split_on sep cs of [] \<Rightarrow> [[c]] | w # ws \<Rightarrow> (c # w) # ws))"

text \<open>\<^verbatim>\<open>sep.join(xs)\<close>.\<close>

fun join :: "string \<Rightarrow> string list \<Rightarrow> string" where
  "join sep [] = []"
| "join sep [x] = x"
| "join sep (x # y # ys) = x @ sep @ join sep (y # ys)"

subsection \<open>Ports\<close>

text \<open>
  The system service database behind \<^verbatim>\<open>socket.getservbyname\<close>: a name is unknown
  (\<^const>\<open>None\<close>, the call raises) or has a port, which the C library stores in 16 bits.
\<close>

type_synonym servdb = "string \<Rightarrow> 16 word option"

text \<open>The argument of the port functions: an \<^verbatim>\<open>int\<close> or a \<^verbatim>\<open>str\<close>.\<close>

datatype port_arg = PInt int | PStr string

text \<open>
  \<^verbatim>\<open>getPortID\<close> (lines 33 to 54). A non-empty string is stripped first; \<^verbatim>\<open>int\<close> is
  tried, and on its \<^verbatim>\<open>ValueError\<close> the service database; any failure there gives -1.
\<close>

fun getPortID :: "servdb \<Rightarrow> port_arg \<Rightarrow> int" where
  "getPortID db (PInt p) = (let id' = p in if id' > 65535 then - 2 else id')"
| "getPortID db (PStr s) =
     (let port = (if s \<noteq> [] then strip s else s) in
      case py_int port of
        Some id' \<Rightarrow> if id' > 65535 then - 2 else id'
      | None \<Rightarrow>
          (case db port of
             None \<Rightarrow> - 1
           | Some w \<Rightarrow> (let id' = uint w in if id' > 65535 then - 2 else id')))"

text \<open>A tuple of one or two port ids.\<close>

datatype port_tuple = Tup1 int | Tup2 int int

text \<open>
  What \<^verbatim>\<open>getPortRange\<close> returns: an integer code, a tuple, or \<^verbatim>\<open>None\<close> for an
  ambiguous range.
\<close>

datatype range_result = RInt int | RTuple port_tuple | RNone

text \<open>
  The loop of \<^verbatim>\<open>getPortRange\<close> (lines 71 to 88), \<^verbatim>\<open>for i in range(len(splits), 0, -1)\<close>,
  as a recursion on \<open>i\<close> that carries the list \<open>matched\<close>; the \<^verbatim>\<open>break\<close> on a full
  match returns at once.
\<close>

fun range_loop :: "servdb \<Rightarrow> string list \<Rightarrow> nat \<Rightarrow> port_tuple list \<Rightarrow> port_tuple list" where
  "range_loop db splits 0 matched = matched"
| "range_loop db splits (Suc k) matched =
     (let i = Suc k;
          id1 = getPortID db (PStr (join ''-'' (take i splits)));
          port2 = join ''-'' (drop i splits)
      in if length port2 > 0 then
           (let id2 = getPortID db (PStr port2) in
            if id1 \<ge> 0 \<and> id2 \<ge> 0 then
              (if id1 < id2 then range_loop db splits k (matched @ [Tup2 id1 id2])
               else if id1 > id2 then range_loop db splits k (matched @ [Tup2 id2 id1])
               else range_loop db splits k (matched @ [Tup1 id1]))
            else range_loop db splits k matched)
         else
           (if id1 \<ge> 0 then
              (if i = length splits then matched @ [Tup1 id1]
               else range_loop db splits k (matched @ [Tup1 id1]))
            else range_loop db splits k matched))"

text \<open>\<^verbatim>\<open>getPortRange\<close> (lines 56 to 93).\<close>

fun getPortRange :: "servdb \<Rightarrow> port_arg \<Rightarrow> range_result" where
  "getPortRange db (PInt p) =
     (let id' = getPortID db (PInt p) in if id' \<ge> 0 then RTuple (Tup1 id') else RInt id')"
| "getPortRange db (PStr ports) =
     (let splits = split_on CHR ''-'' ports;
          matched = range_loop db splits (length splits) []
      in if length matched < 1 then RInt (- 1)
         else if length matched > 1 then RNone
         else RTuple (hd matched))"

text \<open>A tuple with the lower id first: the invariant of the list \<open>matched\<close>.\<close>

definition ordered_tuple :: "port_tuple \<Rightarrow> bool" where
  "ordered_tuple t = (case t of Tup1 x \<Rightarrow> True | Tup2 x y \<Rightarrow> x < y)"

text \<open>
  \<^verbatim>\<open>portStr\<close> (lines 95 to 111). \<^verbatim>\<open>len\<close> of an integer or of \<^verbatim>\<open>None\<close> raises
  \<^verbatim>\<open>TypeError\<close>; the result \<^const>\<open>None\<close> is Python's \<^verbatim>\<open>None\<close>.
\<close>

definition portStr :: "servdb \<Rightarrow> port_arg \<Rightarrow> string \<Rightarrow> py_error + string option" where
  "portStr db port delimiter =
     (if port = PStr [] then Inr (Some [])
      else
        (case getPortRange db port of
           RInt r \<Rightarrow> if r < 0 then Inr None else Inl TypeError
         | RNone \<Rightarrow> Inl TypeError
         | RTuple (Tup1 a) \<Rightarrow> Inr (Some (str_int a))
         | RTuple (Tup2 a b) \<Rightarrow> Inr (Some (str_int a @ delimiter @ str_int b))))"

text \<open>The debug message \<^verbatim>\<open>check_port\<close> logs before it returns \<^verbatim>\<open>False\<close>.\<close>

datatype port_log = PortTooBig | PortInvalid | PortAmbiguous | RangeStartGeEnd

text \<open>
  \<^verbatim>\<open>check_port\<close> (lines 290 to 303): the returned boolean and the message logged.
  An integer code other than -1 and -2 reaches \<^verbatim>\<open>len(range)\<close>, which raises.
\<close>

definition check_port :: "servdb \<Rightarrow> port_arg \<Rightarrow> py_error + bool \<times> port_log option" where
  "check_port db port =
     (case getPortRange db port of
        RInt r \<Rightarrow>
          if r = - 2 then Inr (False, Some PortTooBig)
          else if r = - 1 then Inr (False, Some PortInvalid)
          else Inl TypeError
      | RNone \<Rightarrow> Inr (False, Some PortAmbiguous)
      | RTuple (Tup1 a) \<Rightarrow> Inr (True, None)
      | RTuple (Tup2 a b) \<Rightarrow>
          if a \<ge> b then Inr (False, Some RangeStartGeEnd) else Inr (True, None))"

subsection \<open>Addresses\<close>

text \<open>
  \<^verbatim>\<open>checkIP\<close> and \<^verbatim>\<open>checkIP6\<close> (lines 127 to 151) call \<^verbatim>\<open>socket.inet_pton\<close>, for
  \<^verbatim>\<open>AF_INET\<close> and \<^verbatim>\<open>AF_INET6\<close>. For a string with a NUL character the call raises
  \<^verbatim>\<open>ValueError\<close> (embedded null character), which \<^verbatim>\<open>except socket.error\<close> does not
  catch. Otherwise the C library converts the string or fails with \<^verbatim>\<open>socket.error\<close>; the
  conversion is a parameter here, the predicate "the conversion succeeds".
\<close>

type_synonym inet_pton = "string \<Rightarrow> bool"

definition checkIP :: "inet_pton \<Rightarrow> string \<Rightarrow> py_error + bool" where
  "checkIP pton4 ip =
     (if CHR 0x00 \<in> set ip then Inl ValueError
      else if \<not> pton4 ip then Inr False
      else Inr True)"

definition checkIP6 :: "inet_pton \<Rightarrow> string \<Rightarrow> py_error + bool" where
  "checkIP6 pton6 ip =
     (if CHR 0x00 \<in> set ip then Inl ValueError
      else if \<not> pton6 ip then Inr False
      else Inr True)"

text \<open>
  The first lines of \<^verbatim>\<open>checkIPnMask\<close> and \<^verbatim>\<open>checkIP6nMask\<close>: the string is cut at
  its first slash; without a slash the mask is \<^verbatim>\<open>None\<close>.
\<close>

definition split_mask :: "string \<Rightarrow> string \<times> string option" where
  "split_mask ip =
     (if CHR ''/'' \<in> set ip
      then (takeWhile (\<lambda>c. c \<noteq> CHR ''/'') ip, Some (tl (dropWhile (\<lambda>c. c \<noteq> CHR ''/'') ip)))
      else (ip, None))"

text \<open>
  The last lines of both functions (166 to 172, 184 to 191): \<^verbatim>\<open>int(mask)\<close>, on the mask
  as it is, not stripped; \<^verbatim>\<open>False\<close> on its \<^verbatim>\<open>ValueError\<close> and outside the range from
  0 to \<open>hi\<close>, else \<^verbatim>\<open>True\<close>.
\<close>

definition mask_in_range :: "string \<Rightarrow> int \<Rightarrow> bool" where
  "mask_in_range m hi =
     (case py_int m of
        None \<Rightarrow> False
      | Some i \<Rightarrow> if i < 0 \<or> i > hi then False else True)"

text \<open>
  \<^verbatim>\<open>checkIPnMask\<close> (lines 153 to 172). \<^verbatim>\<open>if mask:\<close> is false for \<^verbatim>\<open>None\<close> and for
  the empty string. \<^verbatim>\<open>checkIP(addr)\<close> is called a second time when the mask has a dot.
\<close>

definition checkIPnMask :: "inet_pton \<Rightarrow> string \<Rightarrow> py_error + bool" where
  "checkIPnMask pton4 ip =
     (case split_mask ip of (addr, mask') \<Rightarrow>
        (case checkIP pton4 addr of
           Inl e \<Rightarrow> Inl e
         | Inr valid \<Rightarrow>
             if \<not> valid then Inr False
             else
               (case mask' of
                  None \<Rightarrow> Inr True
                | Some m \<Rightarrow>
                    if m = [] then Inr True
                    else if CHR ''.'' \<in> set m then
                      (case checkIP pton4 addr of
                         Inl e \<Rightarrow> Inl e
                       | Inr valid' \<Rightarrow>
                           if valid' then Inr False else Inr (mask_in_range m 32))
                    else Inr (mask_in_range m 32))))"

text \<open>\<^verbatim>\<open>checkIP6nMask\<close> (lines 174 to 191).\<close>

definition checkIP6nMask :: "inet_pton \<Rightarrow> string \<Rightarrow> py_error + bool" where
  "checkIP6nMask pton6 ip =
     (case split_mask ip of (addr, mask') \<Rightarrow>
        (case checkIP6 pton6 addr of
           Inl e \<Rightarrow> Inl e
         | Inr valid \<Rightarrow>
             if \<not> valid then Inr False
             else
               (case mask' of
                  None \<Rightarrow> Inr True
                | Some m \<Rightarrow>
                    if m = [] then Inr True
                    else Inr (mask_in_range m 128))))"

subsection \<open>Interface names\<close>

text \<open>
  \<^verbatim>\<open>checkInterface\<close> (lines 208 to 225): the loop over the four forbidden characters
  returns \<^verbatim>\<open>False\<close> at the first one that occurs in the name.
\<close>

fun forbidden_in :: "char list \<Rightarrow> string \<Rightarrow> bool" where
  "forbidden_in [] iface = False"
| "forbidden_in (ch # chs) iface = (if ch \<in> set iface then True else forbidden_in chs iface)"

definition checkInterface :: "string \<Rightarrow> bool" where
  "checkInterface iface =
     (if iface = [] \<or> length iface > 16 then False
      else if forbidden_in [CHR '' '', CHR ''/'', CHR ''!'', CHR ''*''] iface then False
      else True)"

subsection \<open>Zone names\<close>

text \<open>
  \<^verbatim>\<open>max_zone_name_len\<close> (lines 351 to 359). The dictionary \<^verbatim>\<open>SHORTCUTS\<close> of
  \<^verbatim>\<open>firewall.core.base\<close> is a parameter, an association list; \<^verbatim>\<open>max\<close> of an empty
  sequence raises \<^verbatim>\<open>ValueError\<close>.
\<close>

definition dict_values :: "('k \<times> 'v) list \<Rightarrow> 'v list" where
  "dict_values d = map snd d"

definition py_max :: "int list \<Rightarrow> py_error + int" where
  "py_max xs = (case xs of [] \<Rightarrow> Inl ValueError | y # ys \<Rightarrow> Inr (fold max ys y))"

definition max_zone_name_len :: "(string \<times> string) list \<Rightarrow> py_error + int" where
  "max_zone_name_len SHORTCUTS =
     (case py_max (map (\<lambda>v. int (length v)) (dict_values SHORTCUTS)) of
        Inl e \<Rightarrow> Inl e
      | Inr longest_shortcut \<Rightarrow> Inr (28 - (longest_shortcut + int (length ''__allow''))))"

section \<open>Properties\<close>

text \<open>The definitions that the evaluation of \<^verbatim>\<open>int\<close> and \<^verbatim>\<open>strip\<close> unfolds.\<close>

lemmas int_eval =
  py_int_def int_strip_def is_int_space_def strip_def is_space_def parse_unsigned_def
  is_digit_def digit_val_def int_max_str_digits_def

subsection \<open>Integer arguments of getPortID\<close>

text \<open>
  Claim C9. For every negative integer \<open>p\<close>, \<^verbatim>\<open>getPortID(p)\<close> returns \<open>p\<close> unchanged:
  an integer argument is compared with 65535 only, never with 0. So the argument -1 gives
  the value that also reports an unknown name, and -2 the value that also reports a port
  above 65535.
\<close>

theorem getPortID_negative_unchanged:
  "p < 0 \<Longrightarrow>
     getPortID db (PInt p) = p \<and>
     (let port = (if s \<noteq> [] then strip s else s) in
        py_int port = None \<and> db port = None \<longrightarrow>
          getPortID db (PStr s) = getPortID db (PInt (- 1))) \<and>
     (q > 65535 \<longrightarrow> getPortID db (PInt q) = getPortID db (PInt (- 2)))"
  by (simp add: Let_def)

theorem getPortID_negative_unchanged_witness:
  "getPortID (\<lambda>name. None) (PInt (- 7)) = - 7 \<and>
   getPortID (\<lambda>name. None) (PStr ''nosuch'') = getPortID (\<lambda>name. None) (PInt (- 1)) \<and>
   getPortID (\<lambda>name. None) (PInt 70000) = getPortID (\<lambda>name. None) (PInt (- 2))"
  using getPortID_negative_unchanged [of "- 7" "\<lambda>name. None" "''nosuch''" 70000]
  by (simp add: int_eval)

subsection \<open>The zone name length\<close>

lemma py_max_Max:
  assumes "xs \<noteq> []"
  shows "py_max xs = Inr (Max (set xs))"
proof (cases xs)
  case Nil
  with assms show ?thesis by simp
next
  case (Cons y ys)
  have "Max (set (y # ys)) = fold max ys y"
    by (rule Max.set_eq_fold)
  with Cons show ?thesis
    by (simp add: py_max_def)
qed

lemma longest_shortcut_4:
  fixes S :: "(string \<times> string) list"
  assumes "(k, v) \<in> set S" "length v = 4" "\<forall>(k', v') \<in> set S. length v' \<le> 4"
  shows "Max (set (map (\<lambda>v. int (length v)) (dict_values S))) = 4"
proof (rule Max_eqI)
  show "finite (set (map (\<lambda>v. int (length v)) (dict_values S)))" by simp
  show "\<And>y. y \<in> set (map (\<lambda>v. int (length v)) (dict_values S)) \<Longrightarrow> y \<le> 4"
    using assms(3) by (auto simp: dict_values_def)
  show "4 \<in> set (map (\<lambda>v. int (length v)) (dict_values S))"
    using assms(1,2) by (force simp: dict_values_def)
qed

text \<open>
  Claim C10. \<^verbatim>\<open>max_zone_name_len\<close> returns 28 minus the sum of the longest shortcut
  length and 7, the length of \<^verbatim>\<open>__allow\<close>; when the longest value of \<^verbatim>\<open>SHORTCUTS\<close>
  has length 4, the result is 17.
\<close>

theorem max_zone_name_len_value:
  "SHORTCUTS \<noteq> [] \<Longrightarrow>
     max_zone_name_len SHORTCUTS =
       Inr (28 - (Max (set (map (\<lambda>v. int (length v)) (dict_values SHORTCUTS))) + 7)) \<and>
     ((k, v) \<in> set SHORTCUTS \<and> length v = 4 \<and> (\<forall>(k', v') \<in> set SHORTCUTS. length v' \<le> 4)
        \<longrightarrow> max_zone_name_len SHORTCUTS = Inr 17)"
proof -
  assume ne: "SHORTCUTS \<noteq> []"
  then have ne': "map (\<lambda>v. int (length v)) (dict_values SHORTCUTS) \<noteq> []"
    by (simp add: dict_values_def)
  have val: "max_zone_name_len SHORTCUTS =
       Inr (28 - (Max (set (map (\<lambda>v. int (length v)) (dict_values SHORTCUTS))) + 7))"
    by (simp add: max_zone_name_len_def py_max_Max [OF ne'])
  show ?thesis
  proof (intro conjI impI)
    show "max_zone_name_len SHORTCUTS =
       Inr (28 - (Max (set (map (\<lambda>v. int (length v)) (dict_values SHORTCUTS))) + 7))"
      by (rule val)
  next
    assume h: "(k, v) \<in> set SHORTCUTS \<and> length v = 4 \<and>
      (\<forall>(k', v') \<in> set SHORTCUTS. length v' \<le> 4)"
    then have "Max (set (map (\<lambda>v. int (length v)) (dict_values SHORTCUTS))) = 4"
      using longest_shortcut_4 [of k v SHORTCUTS] by blast
    with val show "max_zone_name_len SHORTCUTS = Inr 17" by simp
  qed
qed

theorem max_zone_name_len_value_witness:
  "max_zone_name_len
     [(''PREROUTING'', ''PRE''), (''POSTROUTING'', ''POST''), (''INPUT'', ''IN''),
      (''FORWARD_IN'', ''FWDI''), (''FORWARD_OUT'', ''FWDO''), (''OUTPUT'', ''OUT'')] = Inr 17"
  using max_zone_name_len_value
    [of "[(''PREROUTING'', ''PRE''), (''POSTROUTING'', ''POST''), (''INPUT'', ''IN''),
      (''FORWARD_IN'', ''FWDI''), (''FORWARD_OUT'', ''FWDO''), (''OUTPUT'', ''OUT'')]"
      "''FORWARD_IN''" "''FWDI''"]
  by (simp add: dict_values_def)

subsection \<open>Interface names\<close>

lemma forbidden_in_iff: "forbidden_in chs iface \<longleftrightarrow> set chs \<inter> set iface \<noteq> {}"
  by (induction chs) auto

text \<open>
  Claim C7. \<^verbatim>\<open>checkInterface\<close> returns \<^verbatim>\<open>True\<close> exactly when the name is not empty,
  has at most 16 characters and contains no space, slash, exclamation mark or asterisk;
  \<^verbatim>\<open>eth0\<close> is accepted, \<^verbatim>\<open>eth0!\<close> is rejected, and so is every name of 17 characters.
\<close>

theorem checkInterface_iff:
  "(checkInterface iface \<longleftrightarrow>
      iface \<noteq> [] \<and> length iface \<le> 16 \<and>
      CHR '' '' \<notin> set iface \<and> CHR ''/'' \<notin> set iface \<and> CHR ''!'' \<notin> set iface \<and>
      CHR ''*'' \<notin> set iface) \<and>
   checkInterface ''eth0'' \<and> \<not> checkInterface ''eth0!'' \<and>
   (length iface = 17 \<longrightarrow> \<not> checkInterface iface)"
  by (auto simp: checkInterface_def forbidden_in_iff)

theorem checkInterface_iff_witness:
  "length ''abcdefghijklmnopq'' = 17 \<and> \<not> checkInterface ''abcdefghijklmnopq''"
  using checkInterface_iff [of "''abcdefghijklmnopq''"] by simp

subsection \<open>Decimal strings\<close>

lemma digit_val_digit_char: "d < 10 \<Longrightarrow> digit_val (digit_char d) = d"
proof -
  assume "d < 10"
  then have "d \<in> {0,1,2,3,4,5,6,7,8,9}" by auto
  then show ?thesis
    by (auto simp: digit_val_def digit_char_def)
qed

lemma is_digit_digit_char: "d < 10 \<Longrightarrow> is_digit (digit_char d)"
proof -
  assume "d < 10"
  then have "d \<in> {0,1,2,3,4,5,6,7,8,9}" by auto
  then show ?thesis
    by (auto simp: is_digit_def digit_char_def)
qed

lemma is_digit_not_space: "is_digit c \<Longrightarrow> \<not> is_space c"
  by (auto simp: is_digit_def is_space_def)

lemma is_digit_not_int_space: "is_digit c \<Longrightarrow> \<not> is_int_space c"
  by (auto simp: is_digit_def is_int_space_def)

lemma parse_digits_all_digits:
  "\<forall>c \<in> set ds. is_digit c \<Longrightarrow>
     parse_digits acc ds = Some (foldl (\<lambda>a c. 10 * a + digit_val c) acc ds)"
  by (induction acc ds rule: parse_digits.induct) simp_all

lemma filter_all_digits: "\<forall>c \<in> set ds. is_digit c \<Longrightarrow> filter is_digit ds = ds"
  by (induction ds) simp_all

lemma parse_unsigned_all_digits:
  assumes "ds \<noteq> []" "\<forall>c \<in> set ds. is_digit c" "length ds \<le> int_max_str_digits"
  shows "parse_unsigned ds = Some (dec_val ds)"
proof -
  obtain c cs where ds: "ds = c # cs" using assms(1) by (cases ds) auto
  have f: "filter is_digit (c # cs) = c # cs"
    using assms(2) ds filter_all_digits [of ds] by simp
  have "parse_digits (digit_val c) cs = Some (dec_val (c # cs))"
    using assms(2) ds by (simp add: dec_val_def parse_digits_all_digits)
  then show ?thesis
    using assms(2,3) ds f by (simp add: parse_unsigned_def del: filter.simps)
qed

lemma parse_unsigned_too_long:
  assumes "\<forall>c \<in> set ds. is_digit c" "length ds > int_max_str_digits"
  shows "parse_unsigned ds = None"
proof (cases ds)
  case Nil
  then show ?thesis by (simp add: parse_unsigned_def)
next
  case (Cons c cs)
  have "filter is_digit (c # cs) = c # cs"
    using assms(1) Cons filter_all_digits [of ds] by simp
  then show ?thesis
    using assms Cons by (simp add: parse_unsigned_def del: filter.simps)
qed

lemma trim_id:
  assumes "s \<noteq> []" "\<not> P (hd s)" "\<not> P (last s)"
  shows "rev (dropWhile P (rev (dropWhile P s))) = s"
proof -
  from assms(1,2) have a: "dropWhile P s = s"
    by (cases s) simp_all
  from assms(1,3) have "\<not> P (hd (rev s))"
    by (simp add: hd_rev)
  with assms(1) have b: "dropWhile P (rev s) = rev s"
    by (cases "rev s") simp_all
  show ?thesis
    by (simp add: a b)
qed

lemma strip_id:
  assumes "s \<noteq> []" "\<not> is_space (hd s)" "\<not> is_space (last s)"
  shows "strip s = s"
  unfolding strip_def using assms by (rule trim_id)

lemma int_strip_id:
  assumes "s \<noteq> []" "\<not> is_int_space (hd s)" "\<not> is_int_space (last s)"
  shows "int_strip s = s"
  unfolding int_strip_def using assms by (rule trim_id)

lemma strip_all_digits:
  assumes "ds \<noteq> []" "\<forall>c \<in> set ds. is_digit c"
  shows "strip ds = ds"
proof (rule strip_id)
  show "ds \<noteq> []" by fact
  show "\<not> is_space (hd ds)" using assms by (simp add: is_digit_not_space)
  show "\<not> is_space (last ds)" using assms by (simp add: is_digit_not_space)
qed

lemma int_strip_all_digits:
  assumes "ds \<noteq> []" "\<forall>c \<in> set ds. is_digit c"
  shows "int_strip ds = ds"
proof (rule int_strip_id)
  show "ds \<noteq> []" by fact
  show "\<not> is_int_space (hd ds)" using assms by (simp add: is_digit_not_int_space)
  show "\<not> is_int_space (last ds)" using assms by (simp add: is_digit_not_int_space)
qed

lemma py_int_digits:
  assumes "ds \<noteq> []" "\<forall>c \<in> set ds. is_digit c"
  shows "py_int ds = map_option int (parse_unsigned ds)"
proof -
  obtain c cs where ds: "ds = c # cs" using assms(1) by (cases ds) auto
  with assms(2) have "is_digit c" by simp
  then have "c \<noteq> CHR ''-''" "c \<noteq> CHR ''+''" by (auto simp: is_digit_def)
  then show ?thesis
    using int_strip_all_digits [OF assms] ds by (simp add: py_int_def)
qed

lemma py_int_all_digits:
  assumes "ds \<noteq> []" "\<forall>c \<in> set ds. is_digit c" "length ds \<le> int_max_str_digits"
  shows "py_int ds = Some (int (dec_val ds))"
  using py_int_digits [OF assms(1,2)] parse_unsigned_all_digits [OF assms] by simp

lemma py_int_too_long:
  assumes "\<forall>c \<in> set ds. is_digit c" "length ds > int_max_str_digits"
  shows "py_int ds = None"
proof -
  from assms(2) have "ds \<noteq> []" by auto
  then show ?thesis
    using py_int_digits [OF _ assms(1)] parse_unsigned_too_long [OF assms] by simp
qed

lemma str_nat_digits: "str_nat n \<noteq> [] \<and> (\<forall>c \<in> set (str_nat n). is_digit c)"
proof (induction n rule: str_nat.induct)
  case (1 n)
  show ?case
  proof (cases "n < 10")
    case True
    then show ?thesis by (simp add: str_nat.simps [of n] is_digit_digit_char)
  next
    case False
    with 1 show ?thesis by (simp add: str_nat.simps [of n] is_digit_digit_char)
  qed
qed

lemma dec_val_str_nat: "dec_val (str_nat n) = n"
proof (induction n rule: str_nat.induct)
  case (1 n)
  show ?case
  proof (cases "n < 10")
    case True
    then show ?thesis by (simp add: str_nat.simps [of n] dec_val_def digit_val_digit_char)
  next
    case False
    with 1 have "dec_val (str_nat (n div 10)) = n div 10" by simp
    with False show ?thesis
      by (simp add: str_nat.simps [of n] dec_val_def digit_val_digit_char)
  qed
qed

lemma str_nat_length: "n < 10 ^ k \<Longrightarrow> 0 < k \<Longrightarrow> length (str_nat n) \<le> k"
proof (induction n arbitrary: k rule: str_nat.induct)
  case (1 n)
  show ?case
  proof (cases "n < 10")
    case True
    with 1(3) show ?thesis by (simp add: str_nat.simps [of n])
  next
    case False
    obtain j where k: "k = Suc j" using 1(3) by (cases k) auto
    with 1(2) False have j: "0 < j" by (cases j) auto
    from 1(2) k have "n div 10 < 10 ^ j"
      by (simp add: less_mult_imp_div_less mult.commute)
    with 1(1) False j have "length (str_nat (n div 10)) \<le> j" by simp
    with False k show ?thesis by (simp add: str_nat.simps [of n])
  qed
qed

lemma getPortID_all_digits:
  assumes "ds \<noteq> []" "\<forall>c \<in> set ds. is_digit c" "length ds \<le> int_max_str_digits"
  shows "getPortID db (PStr ds) = (if dec_val ds > 65535 then - 2 else int (dec_val ds))"
  using assms(1) py_int_all_digits [OF assms] strip_all_digits [OF assms(1,2)] by simp

lemma getPortID_too_long:
  assumes "\<forall>c \<in> set ds. is_digit c" "length ds > int_max_str_digits"
  shows "getPortID db (PStr ds) = (case db ds of None \<Rightarrow> - 1 | Some w \<Rightarrow> uint w)"
proof -
  from assms(2) have ne: "ds \<noteq> []" by auto
  have "\<not> 65535 < uint w" for w :: "16 word"
    using uint_bounded [of w] by simp
  then show ?thesis
    using ne py_int_too_long [OF assms] strip_all_digits [OF ne assms(1)]
    by (simp split: option.splits)
qed

lemma str_nat_no_leading_zero: "n \<noteq> 0 \<Longrightarrow> hd (str_nat n) \<noteq> CHR ''0''"
proof (induction n rule: str_nat.induct)
  case (1 n)
  show ?case
  proof (cases "n < 10")
    case True
    with 1(2) have "n \<in> {1,2,3,4,5,6,7,8,9}" by auto
    then show ?thesis by (auto simp: str_nat.simps [of n] digit_char_def)
  next
    case False
    then have "n div 10 \<noteq> 0" by simp
    with 1(1) False have "hd (str_nat (n div 10)) \<noteq> CHR ''0''" by simp
    with False show ?thesis
      using str_nat_digits [of "n div 10"] by (simp add: str_nat.simps [of n])
  qed
qed

text \<open>
  Claim C5. For every integer port \<open>p\<close> from 0 to 65535, \<^verbatim>\<open>portStr\<close> formats \<open>p\<close> as its
  canonical decimal string (digits only, no leading zero except for 0 itself, of value
  \<open>p\<close>), and \<^verbatim>\<open>getPortID\<close> of that string is \<open>p\<close> again.
\<close>

theorem portStr_getPortID_roundtrip:
  "0 \<le> p \<Longrightarrow> p \<le> 65535 \<Longrightarrow>
     portStr db (PInt p) delimiter = Inr (Some (str_int p)) \<and>
     (\<forall>c \<in> set (str_int p). is_digit c) \<and>
     (p \<noteq> 0 \<longrightarrow> hd (str_int p) \<noteq> CHR ''0'') \<and>
     dec_val (str_int p) = nat p \<and>
     getPortID db (PStr (str_int p)) = p"
proof -
  assume p: "0 \<le> p" "p \<le> 65535"
  then have a: "portStr db (PInt p) delimiter = Inr (Some (str_int p))"
    by (simp add: portStr_def)
  from p have b: "str_int p = str_nat (nat p)"
    by (simp add: str_int_def)
  from p have "nat p < 10 ^ 5" by simp
  then have "length (str_nat (nat p)) \<le> 5"
    by (rule str_nat_length) simp
  then have "length (str_nat (nat p)) \<le> int_max_str_digits"
    by (simp add: int_max_str_digits_def)
  with str_nat_digits [of "nat p"]
  have "getPortID db (PStr (str_nat (nat p))) =
      (if dec_val (str_nat (nat p)) > 65535 then - 2 else int (dec_val (str_nat (nat p))))"
    by (intro getPortID_all_digits) simp_all
  with p have c: "getPortID db (PStr (str_int p)) = p"
    by (simp add: b dec_val_str_nat)
  from p have d: "p \<noteq> 0 \<longrightarrow> hd (str_int p) \<noteq> CHR ''0''"
    using str_nat_no_leading_zero [of "nat p"] by (simp add: b)
  have e: "\<forall>c \<in> set (str_int p). is_digit c"
    using str_nat_digits [of "nat p"] by (simp add: b)
  have f: "dec_val (str_int p) = nat p"
    by (simp add: b dec_val_str_nat)
  from a c d e f show ?thesis by simp
qed

theorem portStr_getPortID_roundtrip_witness:
  "portStr (\<lambda>name. None) (PInt 8080) '':'' = Inr (Some ''8080'') \<and>
   getPortID (\<lambda>name. None) (PStr ''8080'') = 8080"
  using portStr_getPortID_roundtrip [of 8080 "\<lambda>name. None" "'':''"]
  by (simp add: str_int_def str_nat.simps digit_char_def)

subsection \<open>The results of getPortID\<close>








lemma foldl_dec_zeros:
  "foldl (\<lambda>a c. 10 * a + digit_val c) acc (replicate n CHR ''0'') = acc * 10 ^ n"
  by (induction n arbitrary: acc) (simp_all add: digit_val_def)





subsection \<open>Addresses with a prefix length\<close>


lemma split_mask_slash:
  assumes "CHR ''/'' \<notin> set a"
  shows "split_mask (a @ CHR ''/'' # m) = (a, Some m)"
proof -
  from assms have t: "takeWhile (\<lambda>c. c \<noteq> CHR ''/'') (a @ CHR ''/'' # m) = a"
    by (induction a) auto
  from assms have d: "dropWhile (\<lambda>c. c \<noteq> CHR ''/'') (a @ CHR ''/'' # m) = CHR ''/'' # m"
    by (induction a) auto
  show ?thesis
    by (simp add: split_mask_def t d)
qed



lemma dec_val_leading_zeros: "dec_val (replicate n CHR ''0'' @ ds) = dec_val ds"
  by (simp add: dec_val_def foldl_dec_zeros)


text \<open>
  A NUL character in the address part: \<^verbatim>\<open>inet_pton\<close> raises \<^verbatim>\<open>ValueError\<close>, and so do
  the four functions.
\<close>

lemma checkIPnMask_nul:
  assumes "CHR ''/'' \<notin> set a" "CHR 0x00 \<in> set a"
  shows "checkIPnMask pton4 (a @ ''/'' @ m) = Inl ValueError"
    and "checkIP6nMask pton6 (a @ ''/'' @ m) = Inl ValueError"
  using assms
  by (simp_all add: checkIPnMask_def checkIP6nMask_def split_mask_slash checkIP_def checkIP6_def)




subsection \<open>The scan of getPortRange\<close>

lemma split_on_not_Nil: "split_on sep s \<noteq> []"
  by (cases s) (simp_all split: list.splits)

lemma join_Cons_Cons: "join sep ((c # w) # ws) = c # join sep (w # ws)"
  by (cases ws) simp_all

lemma join_split_on: "join [sep] (split_on sep s) = s"
proof (induction s)
  case Nil
  show ?case by simp
next
  case (Cons c cs)
  obtain w ws where sp: "split_on sep cs = w # ws"
    using split_on_not_Nil [of sep cs] by (cases "split_on sep cs") auto
  with Cons show ?case
    by (simp add: join_Cons_Cons)
qed

lemma range_loop_full_match:
  assumes "splits \<noteq> []" "0 \<le> getPortID db (PStr (join ''-'' splits))"
  shows "range_loop db splits (length splits) [] = [Tup1 (getPortID db (PStr (join ''-'' splits)))]"
proof -
  obtain k where k: "length splits = Suc k"
    using assms(1) by (cases splits) auto
  then have t: "take (Suc k) splits = splits" "drop (Suc k) splits = []"
    by simp_all
  show ?thesis
    using assms(2) by (simp add: k Let_def t del: getPortID.simps)
qed

text \<open>
  Claim C1, as amended. A port-range string that resolves as a whole, as an integer up to
  65535 or as a service name, is accepted as that single port: \<^verbatim>\<open>getPortRange\<close> returns
  the one-element tuple of its id, whether or not a split at a hyphen has a valid
  interpretation too. The scan stops at the full match, so such a string is never
  reported as ambiguous.
\<close>

theorem getPortRange_full_match:
  "0 \<le> getPortID db (PStr s) \<Longrightarrow>
     getPortRange db (PStr s) = RTuple (Tup1 (getPortID db (PStr s)))"
proof -
  assume a: "0 \<le> getPortID db (PStr s)"
  have j: "join ''-'' (split_on CHR ''-'' s) = s"
    by (rule join_split_on)
  have "range_loop db (split_on CHR ''-'' s) (length (split_on CHR ''-'' s)) [] =
      [Tup1 (getPortID db (PStr (join ''-'' (split_on CHR ''-'' s))))]"
    using a by (intro range_loop_full_match) (simp_all only: split_on_not_Nil j not_False_eq_True)
  then show ?thesis
    by (simp add: Let_def j del: getPortID.simps)
qed

text \<open>
  Claim C1 as first stated, that a string which resolves as a whole and also has a valid
  split is rejected as ambiguous, fails: with \<^verbatim>\<open>ftp-data\<close>, \<^verbatim>\<open>ftp\<close> and \<^verbatim>\<open>data\<close> all in
  the service database, the split of \<^verbatim>\<open>ftp-data\<close> at its hyphen has a valid interpretation,
  and the result is the single port 20, not \<^verbatim>\<open>None\<close>.
\<close>

theorem getPortRange_full_match_witness:
  "getPortID (map_of [(''ftp-data'', 20 :: 16 word)]) (PStr ''ftp-data'') = 20 \<and>
   getPortRange (map_of [(''ftp-data'', 20 :: 16 word)]) (PStr ''ftp-data'') = RTuple (Tup1 20)"
  using getPortRange_full_match [of "map_of [(''ftp-data'', 20 :: 16 word)]" "''ftp-data''"]
  by (simp add: int_eval)

theorem getPortRange_full_match_not_ambiguous:
  "getPortID (map_of [(''ftp-data'', 20 :: 16 word), (''ftp'', 21), (''data'', 3000)])
      (PStr ''ftp-data'') = 20 \<and>
   getPortID (map_of [(''ftp-data'', 20 :: 16 word), (''ftp'', 21), (''data'', 3000)])
      (PStr ''ftp'') = 21 \<and>
   getPortID (map_of [(''ftp-data'', 20 :: 16 word), (''ftp'', 21), (''data'', 3000)])
      (PStr ''data'') = 3000 \<and>
   getPortRange (map_of [(''ftp-data'', 20 :: 16 word), (''ftp'', 21), (''data'', 3000)])
      (PStr ''ftp-data'') \<noteq> RNone"
  by (simp add: int_eval)

lemma ordered_tuple_simps: "ordered_tuple (Tup1 x)" "ordered_tuple (Tup2 x y) \<longleftrightarrow> x < y"
  by (simp_all add: ordered_tuple_def)

lemma range_loop_ordered:
  "list_all ordered_tuple matched \<Longrightarrow> list_all ordered_tuple (range_loop db splits k matched)"
proof (induction k arbitrary: matched)
  case 0
  then show ?case by simp
next
  case (Suc k)
  have step: "\<And>t. ordered_tuple t \<Longrightarrow>
      list_all ordered_tuple (range_loop db splits k (matched @ [t]))"
    using Suc.prems by (intro Suc.IH) simp
  have same: "list_all ordered_tuple (range_loop db splits k matched)"
    using Suc.prems by (rule Suc.IH)
  show ?case
    using Suc.prems
    by (simp add: Let_def step same ordered_tuple_simps del: getPortID.simps)
qed

lemma getPortRange_pair_ordered:
  assumes "getPortRange db port = RTuple (Tup2 x y)"
  shows "x < y"
proof (cases port)
  case (PInt p)
  with assms show ?thesis by (simp add: Let_def split: if_splits)
next
  case (PStr s)
  define matched where "matched = range_loop db (split_on CHR ''-'' s) (length (split_on CHR ''-'' s)) []"
  have ord: "list_all ordered_tuple matched"
    unfolding matched_def by (rule range_loop_ordered) simp
  from assms PStr have "matched \<noteq> [] \<and> hd matched = Tup2 x y"
    by (simp add: Let_def matched_def [symmetric] del: getPortID.simps split: if_splits)
  then have "Tup2 x y \<in> set matched"
    by (cases matched) auto
  with ord show ?thesis
    by (auto simp: ordered_tuple_def list_all_iff)
qed

text \<open>
  Claim C8. Whenever \<^verbatim>\<open>getPortRange\<close> returns a pair \<open>(x, y)\<close>, \<open>x < y\<close>. So the branch
  of \<^verbatim>\<open>check_port\<close> for a pair with start \<open>\<ge>\<close> end is never taken: \<^verbatim>\<open>check_port\<close> never
  logs "range start >= end".
\<close>

theorem getPortRange_pair_lower_first:
  "(getPortRange db port = RTuple (Tup2 x y) \<longrightarrow> x < y) \<and>
   (\<forall>b. check_port db port \<noteq> Inr (b, Some RangeStartGeEnd))"
proof
  show "getPortRange db port = RTuple (Tup2 x y) \<longrightarrow> x < y"
    using getPortRange_pair_ordered by blast
  show "\<forall>b. check_port db port \<noteq> Inr (b, Some RangeStartGeEnd)"
  proof
    fix b
    show "check_port db port \<noteq> Inr (b, Some RangeStartGeEnd)"
    proof (cases "getPortRange db port")
      case (RInt r)
      then show ?thesis by (simp add: check_port_def)
    next
      case RNone
      then show ?thesis by (simp add: check_port_def)
    next
      case (RTuple t)
      show ?thesis
      proof (cases t)
        case (Tup1 a)
        with RTuple show ?thesis by (simp add: check_port_def)
      next
        case (Tup2 a c)
        with RTuple have "a < c" using getPortRange_pair_ordered [of db port a c] by simp
        with RTuple Tup2 show ?thesis by (simp add: check_port_def)
      qed
    qed
  qed
qed

theorem getPortRange_pair_lower_first_witness:
  "getPortRange (\<lambda>name. None) (PStr ''8080-80'') = RTuple (Tup2 80 8080) \<and> (80 :: int) < 8080 \<and>
   check_port (\<lambda>name. None) (PStr ''8080-80'') = Inr (True, None)"
  using getPortRange_pair_lower_first [of "\<lambda>name. None" "PStr ''8080-80''" 80 8080]
  by (simp add: check_port_def int_eval)

subsection \<open>portStr on an ambiguous range\<close>

lemma getPortRange_empty_not_None: "getPortRange db (PStr []) \<noteq> RNone"
  by (simp add: Let_def del: getPortID.simps)

text \<open>
  Claim C2. For every string on which \<^verbatim>\<open>getPortRange\<close> returns \<^verbatim>\<open>None\<close> (an ambiguous
  range), \<^verbatim>\<open>portStr\<close> returns no value: \<^verbatim>\<open>len(None)\<close> raises \<^verbatim>\<open>TypeError\<close>. For the
  other invalid ports, where \<^verbatim>\<open>getPortRange\<close> returns a negative code, \<^verbatim>\<open>portStr\<close>
  returns \<^verbatim>\<open>None\<close>. The witness shows an ambiguous string, so the raising branch is
  reachable.
\<close>

theorem portStr_ambiguous_raises:
  "(getPortRange db (PStr s) = RNone \<longrightarrow> portStr db (PStr s) delimiter = Inl TypeError) \<and>
   (port \<noteq> PStr [] \<and> getPortRange db port = RInt c \<and> c < 0 \<longrightarrow>
      portStr db port delimiter = Inr None)"
proof (intro conjI impI)
  assume a: "getPortRange db (PStr s) = RNone"
  with getPortRange_empty_not_None [of db] have "s \<noteq> []" by auto
  with a show "portStr db (PStr s) delimiter = Inl TypeError"
    by (simp add: portStr_def del: getPortRange.simps)
next
  assume "port \<noteq> PStr [] \<and> getPortRange db port = RInt c \<and> c < 0"
  then show "portStr db port delimiter = Inr None"
    by (simp add: portStr_def del: getPortRange.simps)
qed

theorem portStr_ambiguous_raises_witness:
  "getPortRange (map_of [(''a-b'', 1 :: 16 word), (''c'', 2), (''a'', 3), (''b-c'', 4)])
      (PStr ''a-b-c'') = RNone \<and>
   portStr (map_of [(''a-b'', 1 :: 16 word), (''c'', 2), (''a'', 3), (''b-c'', 4)])
      (PStr ''a-b-c'') '':'' = Inl TypeError \<and>
   getPortRange (map_of [(''a-b'', 1 :: 16 word), (''c'', 2), (''a'', 3), (''b-c'', 4)])
      (PStr ''b'') = RInt (- 1) \<and>
   portStr (map_of [(''a-b'', 1 :: 16 word), (''c'', 2), (''a'', 3), (''b-c'', 4)])
      (PStr ''b'') '':'' = Inr None"
  using portStr_ambiguous_raises
    [of "map_of [(''a-b'', 1 :: 16 word), (''c'', 2), (''a'', 3), (''b-c'', 4)]" "''a-b-c''"
      "'':''" "PStr ''b''" "- 1"]
  by (simp add: int_eval)

subsection \<open>Numeric ranges\<close>

lemma split_on_no_sep: "sep \<notin> set a \<Longrightarrow> split_on sep a = [a]"
  by (induction a) auto

lemma split_on_append: "sep \<notin> set a \<Longrightarrow> split_on sep (a @ sep # b) = a # split_on sep b"
  by (induction a) auto

lemma is_digit_not_hyphen: "is_digit c \<Longrightarrow> c \<noteq> CHR ''-'' \<and> c \<noteq> CHR ''+''"
  by (auto simp: is_digit_def)

lemma parse_digits_digit_Cons:
  "is_digit c \<Longrightarrow> xs \<noteq> [] \<Longrightarrow> parse_digits acc (c # xs) = parse_digits (10 * acc + digit_val c) xs"
  by (cases xs) simp_all

lemma parse_digits_hyphen: "parse_digits acc (CHR ''-'' # xs) = None"
  by (cases xs) (simp_all add: is_digit_def)

lemma parse_digits_digits_hyphen:
  "\<forall>c \<in> set ds. is_digit c \<Longrightarrow> parse_digits acc (ds @ CHR ''-'' # b) = None"
proof (induction ds arbitrary: acc)
  case Nil
  show ?case by (simp add: parse_digits_hyphen)
next
  case (Cons c cs)
  then have "parse_digits acc (c # (cs @ CHR ''-'' # b)) =
      parse_digits (10 * acc + digit_val c) (cs @ CHR ''-'' # b)"
    by (intro parse_digits_digit_Cons) simp_all
  with Cons show ?case by simp
qed

lemma py_int_digits_hyphen:
  assumes "a \<noteq> []" "\<forall>c \<in> set a. is_digit c" "b \<noteq> []" "\<forall>c \<in> set b. is_digit c"
  shows "strip (a @ CHR ''-'' # b) = a @ CHR ''-'' # b" "py_int (a @ CHR ''-'' # b) = None"
proof -
  obtain c cs where a: "a = c # cs" using assms(1) by (cases a) auto
  with assms(2) have c: "is_digit c" by simp
  show "strip (a @ CHR ''-'' # b) = a @ CHR ''-'' # b"
  proof (rule strip_id)
    show "a @ CHR ''-'' # b \<noteq> []" by simp
    show "\<not> is_space (hd (a @ CHR ''-'' # b))"
      using a c by (simp add: is_digit_not_space)
    show "\<not> is_space (last (a @ CHR ''-'' # b))"
      using assms(3,4) by (simp add: is_digit_not_space)
  qed
  have s: "int_strip (a @ CHR ''-'' # b) = a @ CHR ''-'' # b"
  proof (rule int_strip_id)
    show "a @ CHR ''-'' # b \<noteq> []" by simp
    show "\<not> is_int_space (hd (a @ CHR ''-'' # b))"
      using a c by (simp add: is_digit_not_int_space)
    show "\<not> is_int_space (last (a @ CHR ''-'' # b))"
      using assms(3,4) by (simp add: is_digit_not_int_space)
  qed
  have "parse_digits (digit_val c) (cs @ CHR ''-'' # b) = None"
    using assms(2) a by (intro parse_digits_digits_hyphen) simp
  then have "parse_unsigned (c # cs @ CHR ''-'' # b) = None"
    using c by (simp add: parse_unsigned_def del: filter.simps)
  then show "py_int (a @ CHR ''-'' # b) = None"
    using s a c is_digit_not_hyphen [of c] by (simp add: py_int_def)
qed

text \<open>
  Two digit strings around one hyphen, the whole string unknown to the service database:
  only the split at the hyphen is left, and the result follows from the ids of the two
  parts.
\<close>

lemma getPortRange_two_numerals:
  assumes "a \<noteq> []" "\<forall>c \<in> set a. is_digit c" "b \<noteq> []" "\<forall>c \<in> set b. is_digit c"
    and "db (a @ ''-'' @ b) = None"
  shows "getPortRange db (PStr (a @ ''-'' @ b)) =
     (if 0 \<le> getPortID db (PStr a) \<and> 0 \<le> getPortID db (PStr b) then
        (if getPortID db (PStr a) < getPortID db (PStr b)
           then RTuple (Tup2 (getPortID db (PStr a)) (getPortID db (PStr b)))
         else if getPortID db (PStr a) > getPortID db (PStr b)
           then RTuple (Tup2 (getPortID db (PStr b)) (getPortID db (PStr a)))
         else RTuple (Tup1 (getPortID db (PStr a))))
      else RInt (- 1))"
proof -
  have na: "CHR ''-'' \<notin> set a" and nb: "CHR ''-'' \<notin> set b"
    using assms(2,4) is_digit_not_hyphen by blast+
  have splits: "split_on CHR ''-'' (a @ CHR ''-'' # b) = [a, b]"
    using na nb by (simp add: split_on_append split_on_no_sep)
  have whole: "getPortID db (PStr (a @ CHR ''-'' # b)) = - 1"
    using py_int_digits_hyphen [OF assms(1,2,3,4)] assms(5) by simp
  have loop: "range_loop db [a, b] (Suc (Suc 0)) [] =
     (if 0 \<le> getPortID db (PStr a) \<and> 0 \<le> getPortID db (PStr b) then
        (if getPortID db (PStr a) < getPortID db (PStr b)
           then [Tup2 (getPortID db (PStr a)) (getPortID db (PStr b))]
         else if getPortID db (PStr a) > getPortID db (PStr b)
           then [Tup2 (getPortID db (PStr b)) (getPortID db (PStr a))]
         else [Tup1 (getPortID db (PStr a))])
      else [])"
    using assms(3) by (simp add: Let_def whole del: getPortID.simps)
  show ?thesis
    by (simp add: Let_def splits loop del: getPortID.simps range_loop.simps)
qed

text \<open>
  Claim C3, as amended. For a string \<^verbatim>\<open>a-b\<close> where \<open>a\<close> and \<open>b\<close> are decimal integers
  written with at most 4300 digits each, both at most 65535, and the whole string is not
  a service name, \<^verbatim>\<open>getPortRange\<close> returns the pair \<open>(a, b)\<close> if \<open>a < b\<close>, the one-element
  tuple \<open>(a,)\<close> if \<open>a = b\<close>, and the pair \<open>(b, a)\<close> if \<open>a > b\<close>.
\<close>

theorem getPortRange_numeric_range:
  assumes "a \<noteq> []" "\<forall>c \<in> set a. is_digit c" "length a \<le> 4300" "dec_val a \<le> 65535"
    and "b \<noteq> []" "\<forall>c \<in> set b. is_digit c" "length b \<le> 4300" "dec_val b \<le> 65535"
    and "db (a @ ''-'' @ b) = None"
  shows "getPortRange db (PStr (a @ ''-'' @ b)) =
     (if dec_val a < dec_val b then RTuple (Tup2 (int (dec_val a)) (int (dec_val b)))
      else if dec_val a = dec_val b then RTuple (Tup1 (int (dec_val a)))
      else RTuple (Tup2 (int (dec_val b)) (int (dec_val a))))"
proof -
  have la: "length a \<le> int_max_str_digits" and lb: "length b \<le> int_max_str_digits"
    using assms(3,7) by (simp_all add: int_max_str_digits_def)
  have ga: "getPortID db (PStr a) = int (dec_val a)"
    using getPortID_all_digits [OF assms(1,2) la, of db] assms(4) by simp
  have gb: "getPortID db (PStr b) = int (dec_val b)"
    using getPortID_all_digits [OF assms(5,6) lb, of db] assms(8) by simp
  show ?thesis
    unfolding getPortRange_two_numerals [of a b db, OF assms(1,2,5,6,9)] ga gb by simp
qed

theorem getPortRange_numeric_range_witness:
  "getPortRange (\<lambda>name. None) (PStr ''80-8080'') = RTuple (Tup2 80 8080) \<and>
   getPortRange (\<lambda>name. None) (PStr ''8080-80'') = RTuple (Tup2 80 8080) \<and>
   getPortRange (\<lambda>name. None) (PStr ''443-443'') = RTuple (Tup1 443)"
  using getPortRange_numeric_range [of "''80''" "''8080''" "\<lambda>name. None"]
    getPortRange_numeric_range [of "''8080''" "''80''" "\<lambda>name. None"]
    getPortRange_numeric_range [of "''443''" "''443''" "\<lambda>name. None"]
  by (simp add: dec_val_def is_digit_def digit_val_def)

text \<open>
  Claim C3 as first stated, for decimal integers of any length, fails on a long numeral:
  with \<open>a\<close> the integer 1 written with 4300 leading zeros and \<open>b\<close> the integer 2, no
  service known, \<^verbatim>\<open>int\<close> raises \<^verbatim>\<open>ValueError\<close> on the 4301 digits of \<open>a\<close> and the result
  is -1, not the pair \<open>(1, 2)\<close>.
\<close>

theorem getPortRange_long_numeral_invalid:
  "dec_val (replicate 4300 CHR ''0'' @ ''1'') = 1 \<and> dec_val ''2'' = 2 \<and>
   getPortRange (\<lambda>name. None) (PStr ((replicate 4300 CHR ''0'' @ ''1'') @ ''-'' @ ''2'')) =
     RInt (- 1)"
proof (intro conjI)
  show "dec_val (replicate 4300 CHR ''0'' @ ''1'') = 1"
    by (simp only: dec_val_leading_zeros) (simp add: dec_val_def digit_val_def)
  show "dec_val ''2'' = 2"
    by (simp add: dec_val_def digit_val_def)
  have d: "\<forall>c \<in> set (replicate 4300 CHR ''0'' @ ''1''). is_digit c"
    by (simp add: is_digit_def)
  have "getPortID (\<lambda>name. None) (PStr (replicate 4300 CHR ''0'' @ ''1'')) =
      (case (\<lambda>name. None) (replicate 4300 CHR ''0'' @ ''1'') of
         None \<Rightarrow> - 1 | Some w \<Rightarrow> uint (w :: 16 word))"
    using d by (rule getPortID_too_long) (simp add: int_max_str_digits_def)
  then have g: "getPortID (\<lambda>name. None) (PStr (replicate 4300 CHR ''0'' @ ''1'')) = - 1"
    by simp
  have "getPortRange (\<lambda>name. None) (PStr ((replicate 4300 CHR ''0'' @ ''1'') @ ''-'' @ ''2'')) =
     (if 0 \<le> getPortID (\<lambda>name. None) (PStr (replicate 4300 CHR ''0'' @ ''1'')) \<and>
         0 \<le> getPortID (\<lambda>name. None) (PStr ''2'') then
        (if getPortID (\<lambda>name. None) (PStr (replicate 4300 CHR ''0'' @ ''1''))
            < getPortID (\<lambda>name. None) (PStr ''2'')
           then RTuple (Tup2 (getPortID (\<lambda>name. None) (PStr (replicate 4300 CHR ''0'' @ ''1'')))
                  (getPortID (\<lambda>name. None) (PStr ''2'')))
         else if getPortID (\<lambda>name. None) (PStr (replicate 4300 CHR ''0'' @ ''1''))
            > getPortID (\<lambda>name. None) (PStr ''2'')
           then RTuple (Tup2 (getPortID (\<lambda>name. None) (PStr ''2''))
                  (getPortID (\<lambda>name. None) (PStr (replicate 4300 CHR ''0'' @ ''1''))))
         else RTuple (Tup1 (getPortID (\<lambda>name. None) (PStr (replicate 4300 CHR ''0'' @ ''1'')))))
      else RInt (- 1))"
    using d
    by (intro getPortRange_two_numerals [of "replicate 4300 CHR ''0'' @ ''1''" "''2''" "\<lambda>name. None"])
      (simp_all add: is_digit_def)
  then show "getPortRange (\<lambda>name. None)
      (PStr ((replicate 4300 CHR ''0'' @ ''1'') @ ''-'' @ ''2'')) = RInt (- 1)"
    by (simp only: g) simp
qed

end
